theory Spec2Isabelle
  imports Complex_Main "HOL-Library.Word" "HOL-Library.Signed_Division"
begin

unbundle bit_operations_syntax

section \<open>Machine types of gl2\_xsync.c (LP64)\<close>

text \<open>
  The program is written for X11 on a 64-bit Linux: \<open>unsigned long\<close> (\<open>ulong\<close>, \<open>Atom\<close>,
  \<open>XID\<close>) and \<open>long\<close> are 64 bits wide, \<open>int\<close> is 32 bits wide. All of them are words;
  a \<open>long\<close> is read through \<open>sint\<close> where the source compares or divides it as a signed
  value, and signed arithmetic wraps as the compiled code does.
\<close>

type_synonym ulong = "64 word"
type_synonym long = "64 word"
type_synonym cint = "32 word"
type_synonym uint = "32 word"
type_synonym Atom = "64 word"
type_synonym XSyncCounter = "64 word"

text \<open>\<open>XSyncValue\<close> of the XSync extension: a signed high and an unsigned low half.\<close>

record XSyncValue =
  hi :: cint
  lo :: uint

definition XSyncIntsToValue :: "uint \<Rightarrow> cint \<Rightarrow> XSyncValue" where
  "XSyncIntsToValue l h = \<lparr>hi = h, lo = l\<rparr>"

text \<open>The 64-bit number that the server's counter holds after a write of an \<open>XSyncValue\<close>.\<close>

definition counter_value :: "XSyncValue \<Rightarrow> ulong" where
  "counter_value v = push_bit 32 (ucast (hi v)) OR ucast (lo v)"

section \<open>The running-average buffer\<close>

text \<open>
  \<open>circular_buffer\<close>: the fields \<open>sum\<close>, \<open>count\<close>, \<open>offset\<close> and \<open>samples[31]\<close> of the
  source, all \<open>long\<close>.
\<close>

record circular_buffer =
  cb_sum :: long
  cb_count :: long
  cb_offset :: long
  cb_samples :: "long list"

text \<open>\<open>array_size(buffer->samples)\<close>, a \<open>size_t\<close> constant.\<close>

definition samples_size :: ulong where
  "samples_size = 31"

text \<open>A buffer in static storage: every field zero.\<close>

definition circular_buffer_zero :: circular_buffer where
  "circular_buffer_zero =
     \<lparr>cb_sum = 0, cb_count = 0, cb_offset = 0, cb_samples = replicate 31 0\<rparr>"

text \<open>
  \<open>circular_buffer_add\<close>. The access \<open>samples[offset]\<close> outside the array is undefined
  behaviour in C: the model returns \<open>None\<close> there. The comparison
  \<open>offset >= array_size(...)\<close> is unsigned, since \<open>array_size\<close> is a \<open>size_t\<close>.
\<close>

definition circular_buffer_add :: "circular_buffer \<Rightarrow> long \<Rightarrow> circular_buffer option" where
  "circular_buffer_add buffer new_value =
     (if unat (cb_offset buffer) < length (cb_samples buffer) then
        let old_value = cb_samples buffer ! unat (cb_offset buffer);
            b1 = buffer\<lparr>cb_samples := (cb_samples buffer)[unat (cb_offset buffer) := new_value]\<rparr>;
            b2 = b1\<lparr>cb_sum := cb_sum b1 + (new_value - old_value)\<rparr>;
            b3 = b2\<lparr>cb_count := cb_count b2 + 1\<rparr>;
            b4 = b3\<lparr>cb_offset := cb_offset b3 + 1\<rparr>
        in Some (if cb_offset b4 \<ge> samples_size then b4\<lparr>cb_offset := 0\<rparr> else b4)
      else None)"

text \<open>\<open>cb_valid\<close>: the write cursor is inside the array, so that the access is defined.\<close>

definition cb_valid :: "circular_buffer \<Rightarrow> bool" where
  "cb_valid b \<longleftrightarrow> unat (cb_offset b) < length (cb_samples b)"

text \<open>
  \<open>circular_buffer_average\<close>. The first division, \<open>sum / count\<close>, is a division of two
  \<open>long\<close>s: signed, truncating towards zero. In the second, \<open>sum / array_size(...)\<close>, the
  divisor is a \<open>size_t\<close>, so \<open>sum\<close> is converted to \<open>unsigned long\<close> and the division is
  unsigned. The comparison \<open>count < array_size(...)\<close> is unsigned for the same reason.
\<close>

definition circular_buffer_average :: "circular_buffer \<Rightarrow> long" where
  "circular_buffer_average buffer =
     (if cb_count buffer = 0 then - 1
      else if cb_count buffer < samples_size then
        word_of_int (sint (cb_sum buffer) sdiv sint (cb_count buffer))
      else cb_sum buffer div samples_size)"

section \<open>Program state\<close>

text \<open>
  The requests that the program sends to the X server and to OpenGL, in the order in which
  it issues them. \<open>XSyncSetCounter\<close> is the write of a counter; \<open>XSync\<close> and \<open>XFlush\<close>
  flush the connection; \<open>Reshape\<close>, \<open>DrawFrame\<close> and \<open>glXSwapBuffers\<close> are the renderer
  (\<open>reshape\<close>, the drawing calls of \<open>draw_frame\<close> with the frame delta they animate by, and
  the buffer swap); \<open>XSendEvent\<close> is the reply to a ping, with the message it sends back.
\<close>

datatype effect =
    XSyncSetCounter XSyncCounter XSyncValue
  | XSync
  | XFlush
  | Reshape cint cint
  | DrawFrame long
  | glXSwapBuffers
  | XSendEvent Atom long long long long long

datatype frame_disposition = frame_normal | frame_urgent

text \<open>
  The file-scope variables of the source that the synchronisation protocol and the frame
  scheduler use, under their own names (the atoms without the leading underscore), and the log
  of the requests issued so far. \<open>supported_atoms\<close> is the array that
  \<open>update_wm_supported\<close> reads, \<open>num_supported_atoms\<close> its length. A \<open>float\<close> is modelled
  by the real number it stands for; floating-point operations are parameters, see \<open>fpu\<close>.
\<close>

record state =
  WM_PROTOCOLS :: Atom
  NET_WM_SYNC_REQUEST :: Atom
  NET_WM_FRAME_DRAWN :: Atom
  NET_WM_FRAME_TIMINGS :: Atom
  NET_WM_PING :: Atom
  request_extended_sync :: cint
  configure_extended_sync :: cint
  current_sync_serial :: ulong
  request_sync_serial :: ulong
  configure_sync_serial :: ulong
  inflight_sync_serial :: ulong
  drawn_sync_serial :: ulong
  timing_sync_serial :: ulong
  update_counter :: XSyncCounter
  extended_counter :: XSyncCounter
  supported_atoms :: "Atom list"
  have_xsync_extension :: cint
  have_net_supported :: cint
  frame_rate :: real
  frame_number :: ulong
  last_draw_time :: long
  next_draw_time :: long
  current_time :: long
  delta_time :: long
  render_time :: long
  width :: cint
  height :: cint
  current_width :: cint
  current_height :: cint
  frame_time_buffer :: circular_buffer
  render_time_buffer :: circular_buffer
  effects :: "effect list"

section \<open>The sync serial state machine\<close>

text \<open>
  \<open>sync_counter\<close>: without the XSync extension nothing is sent; with it, the value is split
  into its two halves (the local variable \<open>sync_value\<close>) and written to the counter.
\<close>

definition sync_value :: "ulong \<Rightarrow> XSyncValue" where
  "sync_value v = XSyncIntsToValue (ucast (v AND 0xFFFFFFFF)) (ucast (drop_bit 32 v))"

definition sync_counter :: "state \<Rightarrow> XSyncCounter \<Rightarrow> ulong \<Rightarrow> state" where
  "sync_counter s counter v =
     (if have_xsync_extension s = 0 then s
      else s\<lparr>effects := effects s @ [XSyncSetCounter counter (sync_value v)]\<rparr>)"

text \<open>\<open>begin_frame\<close>: inform the compositor that we are starting to draw a frame.\<close>

definition begin_frame :: "state \<Rightarrow> frame_disposition \<Rightarrow> state" where
  "begin_frame s disposition =
     (let s1 = (if configure_sync_serial s \<noteq> 0 \<and> configure_extended_sync s \<noteq> 0
                then s\<lparr>current_sync_serial := configure_sync_serial s,
                       configure_sync_serial := 0\<rparr>
                else s);
          s2 = (if current_sync_serial s1 AND 3 \<noteq> 0
                then s1\<lparr>current_sync_serial := (current_sync_serial s1 + 3) AND NOT 3\<rparr>
                else s1);
          s3 = s2\<lparr>inflight_sync_serial := current_sync_serial s2 + 4\<rparr>;
          s4 = s3\<lparr>current_sync_serial :=
                    current_sync_serial s3 + (if disposition = frame_urgent then 3 else 1)\<rparr>
      in sync_counter s4 (extended_counter s4) (current_sync_serial s4))"

text \<open>\<open>end_frame\<close>: inform the compositor that we have finished drawing a frame.\<close>

definition end_frame :: "state \<Rightarrow> state" where
  "end_frame s =
     (let s1 = (if current_sync_serial s AND 3 = 1 then
                  let s' = s\<lparr>current_sync_serial := current_sync_serial s + 3\<rparr>
                  in sync_counter s' (extended_counter s') (current_sync_serial s')
                else if current_sync_serial s AND 3 = 3 then
                  let s' = s\<lparr>current_sync_serial := current_sync_serial s + 1\<rparr>
                  in sync_counter s' (extended_counter s') (current_sync_serial s')
                else s)
      in if configure_sync_serial s1 \<noteq> 0 \<and> configure_extended_sync s1 \<noteq> 0 then
           let s2 = sync_counter s1 (update_counter s1) (configure_sync_serial s1)
           in s2\<lparr>configure_sync_serial := 0, configure_extended_sync := 0\<rparr>
         else s1)"

section \<open>Frame submission\<close>

text \<open>
  Floating point is not part of the model. The three operations on \<open>float\<close> that the
  scheduler uses are parameters: the division \<open>x / y\<close>, the conversion of a \<open>long\<close> to
  \<open>float\<close>, and the cast \<open>(long)\<close>. Comparisons of floats are comparisons of the reals
  they stand for (no operand of a comparison in the modelled code can be a NaN).
\<close>

record fpu =
  fdiv :: "real \<Rightarrow> real \<Rightarrow> real"
  long_to_float :: "long \<Rightarrow> real"
  float_to_long :: "real \<Rightarrow> long"

text \<open>
  \<open>draw_frame\<close>: reconfigure the projection when the window size changed, then draw. What
  the drawing calls do to OpenGL is one \<open>DrawFrame\<close> request; it carries \<open>delta_time\<close>, by
  which the animation advances.
\<close>

definition draw_frame :: "state \<Rightarrow> state" where
  "draw_frame s =
     (let s1 = (if current_width s \<noteq> width s \<or> current_height s \<noteq> height s
                then s\<lparr>effects := effects s @ [Reshape (width s) (height s)],
                       current_width := width s, current_height := height s\<rparr>
                else s)
      in s1\<lparr>effects := effects s1 @ [DrawFrame (delta_time s1)]\<rparr>)"

text \<open>
  \<open>submit_frame\<close>: submit frame for rendering. \<open>now\<close> and \<open>now_end\<close> are what the two calls
  of \<open>get_time_microseconds\<close> return. The trace output is not modelled; apart from it, the
  source does not use \<open>disposition\<close>: it calls \<open>begin_frame(d, w, frame_normal)\<close>.
\<close>

definition submit_frame ::
  "fpu \<Rightarrow> state \<Rightarrow> frame_disposition \<Rightarrow> real \<Rightarrow> long \<Rightarrow> long \<Rightarrow> state option" where
  "submit_frame F s disposition target_frame_rate now now_end =
     (let s0 = s\<lparr>current_time := now\<rparr> in
      if 0 < timing_sync_serial s0 \<and> timing_sync_serial s0 < inflight_sync_serial s0 then
        Some (s0\<lparr>effects := effects s0 @ [XSync], next_draw_time := current_time s0 + 2000\<rparr>)
      else
        case (if last_draw_time s0 \<noteq> 0 then
                let s' = s0\<lparr>delta_time := current_time s0 - last_draw_time s0\<rparr>
                in map_option (\<lambda>b. s'\<lparr>frame_time_buffer := b\<rparr>)
                     (circular_buffer_add (frame_time_buffer s') (delta_time s'))
              else Some s0) of
          None \<Rightarrow> None
        | Some s1 \<Rightarrow>
            let s2 = s1\<lparr>last_draw_time := current_time s1\<rparr>;
                s3 = s2\<lparr>next_draw_time := current_time s2 +
                          float_to_long F (fdiv F 1000000 target_frame_rate)\<rparr>;
                s4 = s3\<lparr>frame_number := frame_number s3 + 1\<rparr>;
                s5 = s4\<lparr>effects := effects s4 @ [XFlush]\<rparr>;
                s6 = draw_frame s5;
                s7 = begin_frame s6 frame_normal;
                s8 = s7\<lparr>effects := effects s7 @ [glXSwapBuffers]\<rparr>;
                s9 = end_frame s8;
                s10 = s9\<lparr>current_time := now_end\<rparr>;
                s11 = s10\<lparr>render_time := current_time s10 - last_draw_time s10\<rparr>
            in map_option (\<lambda>b. s11\<lparr>render_time_buffer := b\<rparr>)
                 (circular_buffer_add (render_time_buffer s11) (render_time s11)))"

section \<open>The protocol event dispatcher\<close>

text \<open>
  The events that \<open>process_event\<close> tells apart: \<open>ConfigureNotify\<close> with the new width and
  height, \<open>ClientMessage\<close> with its message type and the five \<open>long\<close>s of \<open>data.l\<close>, and
  the events that only produce trace output.
\<close>

datatype XEvent =
    Expose
  | ConfigureNotify cint cint
  | ClientMessage Atom long long long long long
  | PropertyNotify
  | OtherEvent

text \<open>
  How a serial reaches \<open>data.l\<close>. A client message of format 32 carries five 32-bit data
  on the wire; the compositor puts the low half of the 64-bit serial in the first and the
  high half in the second. Xlib hands each datum to the client in a \<open>long\<close>, converted from
  a signed 32-bit integer: on LP64 it is sign-extended (\<open>wire_long\<close>). \<open>serial_message\<close> is
  the event that \<open>XNextEvent\<close> returns for a frame-drawn or frame-timings message that
  carries \<open>serial\<close>; the other three data are passed as they are in \<open>data.l\<close>.
\<close>

definition wire_long :: "32 word \<Rightarrow> long" where
  "wire_long w = scast w"

definition serial_message :: "Atom \<Rightarrow> ulong \<Rightarrow> long \<Rightarrow> long \<Rightarrow> long \<Rightarrow> XEvent" where
  "serial_message message_type serial l2 l3 l4 =
     ClientMessage message_type (wire_long (ucast serial))
       (wire_long (ucast (drop_bit 32 serial))) l2 l3 l4"

text \<open>
  The rate that the \<open>Expose\<close> case passes to \<open>submit_frame\<close>: cap frame rate of expose
  frames to measured frame rate.
\<close>

definition expose_cap_frame_rate :: "fpu \<Rightarrow> state \<Rightarrow> real" where
  "expose_cap_frame_rate F s =
     (let frame_time_avg = circular_buffer_average (frame_time_buffer s);
          measured_frame_rate = fdiv F 1000000 (long_to_float F frame_time_avg)
      in if 0 < sint frame_time_avg \<and> frame_rate s > measured_frame_rate
         then measured_frame_rate else frame_rate s)"

text \<open>
  \<open>process_event\<close>, for the event \<open>e\<close> that \<open>XNextEvent\<close> returns; \<open>t0\<close> is the clock
  reading of \<open>process_event\<close> itself, \<open>t1\<close> and \<open>t2\<close> are those of the \<open>submit_frame\<close> it may
  call.
\<close>

fun process_event :: "fpu \<Rightarrow> state \<Rightarrow> XEvent \<Rightarrow> long \<Rightarrow> long \<Rightarrow> long \<Rightarrow> state option" where
  "process_event F s Expose t0 t1 t2 =
     (let s0 = s\<lparr>current_time := t0\<rparr>
      in submit_frame F s0 frame_urgent (expose_cap_frame_rate F s0) t1 t2)"
| "process_event F s (ConfigureNotify w h) t0 t1 t2 =
     (let s0 = s\<lparr>current_time := t0\<rparr>;
          s1 = s0\<lparr>width := w, height := h\<rparr>;
          s2 = s1\<lparr>configure_sync_serial := request_sync_serial s1\<rparr>;
          s3 = s2\<lparr>configure_extended_sync := request_extended_sync s2\<rparr>;
          s4 = s3\<lparr>request_sync_serial := 0, request_extended_sync := 0\<rparr>
      in Some (sync_counter s4 (extended_counter s4) (current_sync_serial s4)))"
| "process_event F s (ClientMessage message_type l0 l1 l2 l3 l4) t0 t1 t2 =
     (let s0 = s\<lparr>current_time := t0\<rparr> in
      if message_type = WM_PROTOCOLS s0 \<and> l0 = NET_WM_PING s0 then
        Some (s0\<lparr>effects := effects s0 @ [XSendEvent message_type l0 l1 l2 l3 l4]\<rparr>)
      else if message_type = WM_PROTOCOLS s0 \<and> l0 = NET_WM_SYNC_REQUEST s0 then
        Some (s0\<lparr>request_sync_serial := l2 + push_bit 32 l3,
                  request_extended_sync := (if l4 \<noteq> 0 then 1 else 0)\<rparr>)
      else if message_type = NET_WM_FRAME_DRAWN s0 then
        let sync_serial = push_bit 32 l1 OR l0
        in Some (if sync_serial > drawn_sync_serial s0
                 then s0\<lparr>drawn_sync_serial := sync_serial\<rparr> else s0)
      else if message_type = NET_WM_FRAME_TIMINGS s0 then
        let sync_serial = push_bit 32 l1 OR l0
        in Some (if sync_serial > timing_sync_serial s0
                 then s0\<lparr>timing_sync_serial := sync_serial\<rparr> else s0)
      else Some s0)"
| "process_event F s PropertyNotify t0 t1 t2 = Some (s\<lparr>current_time := t0\<rparr>)"
| "process_event F s OtherEvent t0 t1 t2 = Some (s\<lparr>current_time := t0\<rparr>)"

section \<open>Window manager capabilities\<close>

text \<open>
  \<open>check_wm_supported\<close>. A C function has a result only where it executes a \<open>return\<close>
  statement with a value; the result is \<open>None\<close> where control reaches the closing brace
  instead, as it does after the loop.
\<close>

fun check_wm_supported_loop :: "Atom list \<Rightarrow> Atom \<Rightarrow> cint option" where
  "check_wm_supported_loop [] atom = None"
| "check_wm_supported_loop (a # as) atom =
     (if a = atom then Some 1 else check_wm_supported_loop as atom)"

definition check_wm_supported :: "state \<Rightarrow> Atom \<Rightarrow> cint option" where
  "check_wm_supported s atom =
     (if have_net_supported s = 0 then Some 0
      else check_wm_supported_loop (supported_atoms s) atom)"

section \<open>Sequences of frame cycles and events\<close>

text \<open>
  What the single thread of the program does to the protocol state, one action after the
  other: it begins a frame with disposition normal, ends a frame, or dispatches an event.
\<close>

datatype action = BeginFrame | EndFrame | Dispatch XEvent long long long

fun step :: "fpu \<Rightarrow> state \<Rightarrow> action \<Rightarrow> state option" where
  "step F s BeginFrame = Some (begin_frame s frame_normal)"
| "step F s EndFrame = Some (end_frame s)"
| "step F s (Dispatch e t0 t1 t2) = process_event F s e t0 t1 t2"

fun run :: "fpu \<Rightarrow> state \<Rightarrow> action list \<Rightarrow> state option" where
  "run F s [] = Some s"
| "run F s (a # as) = (case step F s a of None \<Rightarrow> None | Some s' \<Rightarrow> run F s' as)"

text \<open>
  \<open>cycles in_frame as\<close>: the frame actions of \<open>as\<close> are \<open>BeginFrame\<close>/\<open>EndFrame\<close> pairs
  (\<open>in_frame\<close> tells whether a frame is open at the start), and the events dispatched among
  them are not exposures, which would submit a frame of their own.
\<close>

fun cycles :: "bool \<Rightarrow> action list \<Rightarrow> bool" where
  "cycles in_frame [] = True"
| "cycles in_frame (BeginFrame # as) = (\<not> in_frame \<and> cycles True as)"
| "cycles in_frame (EndFrame # as) = (in_frame \<and> cycles False as)"
| "cycles in_frame (Dispatch e t0 t1 t2 # as) = (e \<noteq> Expose \<and> cycles in_frame as)"

text \<open>
  \<open>between_cycles b as\<close>: after \<open>as\<close> the program is strictly between two cycles, that is,
  the last frame action of \<open>as\<close> is an \<open>EndFrame\<close> (\<open>b\<close> is the answer for a sequence
  without frame actions).
\<close>

fun between_cycles :: "bool \<Rightarrow> action list \<Rightarrow> bool" where
  "between_cycles b [] = b"
| "between_cycles b (BeginFrame # as) = between_cycles False as"
| "between_cycles b (EndFrame # as) = between_cycles True as"
| "between_cycles b (Dispatch e t0 t1 t2 # as) = between_cycles b as"

section \<open>A concrete start state\<close>

text \<open>
  The state after start-up on a server with the XSync extension: the statics at their
  initial values (\<open>frame_rate\<close> 29.97, a window of 500 by 500), atoms and counters as a
  server might hand them out.
\<close>

definition start_state :: state where
  "start_state =
     \<lparr>WM_PROTOCOLS = 300, NET_WM_SYNC_REQUEST = 301, NET_WM_FRAME_DRAWN = 302,
      NET_WM_FRAME_TIMINGS = 303, NET_WM_PING = 304,
      request_extended_sync = 0, configure_extended_sync = 0,
      current_sync_serial = 0, request_sync_serial = 0, configure_sync_serial = 0,
      inflight_sync_serial = 0, drawn_sync_serial = 0, timing_sync_serial = 0,
      update_counter = 4194305, extended_counter = 4194306,
      supported_atoms = [305, 306], have_xsync_extension = 1, have_net_supported = 1,
      frame_rate = 2997 / 100, frame_number = 0,
      last_draw_time = 0, next_draw_time = 0, current_time = 0, delta_time = 0,
      render_time = 0, width = 500, height = 500, current_width = 0, current_height = 0,
      frame_time_buffer = circular_buffer_zero, render_time_buffer = circular_buffer_zero,
      effects = []\<rparr>"

text \<open>Exact arithmetic in place of the floating-point unit, for evaluation.\<close>

definition exact_fpu :: fpu where
  "exact_fpu =
     \<lparr>fdiv = (\<lambda>x y. x / y), long_to_float = (\<lambda>x. real_of_int (sint x)),
      float_to_long = (\<lambda>x. word_of_int (sgn (floor x) * floor \<bar>x\<bar>))\<rparr>"

text \<open>
  A run of the program: a sync request (serial 1001, extended) and the geometry change that
  promotes it, a frame cycle, a frame-drawn message, and a second cycle during which another
  sync request arrives.
\<close>

definition example_actions :: "action list" where
  "example_actions =
     [Dispatch (ClientMessage 300 301 0 1001 0 1) 10 0 0,
      Dispatch (ConfigureNotify 640 480) 20 0 0,
      BeginFrame,
      EndFrame,
      Dispatch (ClientMessage 302 1008 0 0 0 0) 30 0 0,
      BeginFrame,
      Dispatch (ClientMessage 300 301 0 2001 0 1) 40 0 0,
      EndFrame]"

section \<open>Sequences of insertions into a buffer\<close>

text \<open>\<open>add_samples b xs\<close>: call \<open>circular_buffer_add\<close> on \<open>b\<close> for each sample of \<open>xs\<close> in turn.\<close>

fun add_samples :: "circular_buffer \<Rightarrow> long list \<Rightarrow> circular_buffer option" where
  "add_samples b [] = Some b"
| "add_samples b (x # xs) =
     (case circular_buffer_add b x of None \<Rightarrow> None | Some b' \<Rightarrow> add_samples b' xs)"

text \<open>
  What a buffer that started in static storage should hold after the samples \<open>xs\<close>:
  \<open>last_samples xs\<close> are the 31 most recent samples, oldest first, the zeros of the fresh
  array standing in while fewer than 31 were inserted; \<open>ring_of xs\<close> is their layout in
  the array, the oldest at the write cursor; \<open>cb_holds b xs\<close> says that \<open>b\<close> is that buffer.
\<close>

definition last_samples :: "long list \<Rightarrow> long list" where
  "last_samples xs = drop (length xs) (replicate 31 0 @ xs)"

definition ring_of :: "long list \<Rightarrow> long list" where
  "ring_of xs =
     drop (31 - length xs mod 31) (last_samples xs) @
     take (31 - length xs mod 31) (last_samples xs)"

definition cb_holds :: "circular_buffer \<Rightarrow> long list \<Rightarrow> bool" where
  "cb_holds b xs \<longleftrightarrow>
     cb_samples b = ring_of xs \<and> cb_offset b = of_nat (length xs mod 31) \<and>
     cb_count b = of_nat (length xs) \<and> cb_sum b = sum_list (cb_samples b)"

section \<open>Concrete states and inputs\<close>

text \<open>
  States at which the theorems below are evaluated: a state in which the compositor has sent
  timings for serial 4 while serial 8 is in flight; a state whose high-water marks are
  \<open>2^32\<close>; a state after three frames whose two frame intervals average 20000 microseconds
  (50 frames a second) with a target of 60; a state with a promoted extended request for
  serial 1000.
\<close>

definition backpressure_state :: state where
  "backpressure_state =
     start_state\<lparr>current_sync_serial := 8, inflight_sync_serial := 8, timing_sync_serial := 4,
                 frame_number := 2, last_draw_time := 33366\<rparr>"

definition marked_state :: state where
  "marked_state =
     start_state\<lparr>drawn_sync_serial := 4294967296, timing_sync_serial := 4294967296\<rparr>"

definition measured_state :: state where
  "measured_state =
     start_state\<lparr>frame_rate := 60, frame_number := 3, last_draw_time := 40000,
                 frame_time_buffer :=
                   \<lparr>cb_sum = 40000, cb_count = 2, cb_offset = 2,
                    cb_samples = 19000 # 21000 # replicate 29 0\<rparr>\<rparr>"

definition promoted_state :: state where
  "promoted_state =
     start_state\<lparr>configure_sync_serial := 1000, configure_extended_sync := 1\<rparr>"

text \<open>
  Samples: 32 distinct values; 31 values whose sum, 63, is not a multiple of 31; 31 negative
  values.
\<close>

definition distinct_samples :: "long list" where
  "distinct_samples = map of_nat [1 ..< 33]"

definition uneven_samples :: "long list" where
  "uneven_samples = 3 # replicate 30 2"

definition negative_samples :: "long list" where
  "negative_samples = replicate 31 (- 1)"

text \<open>
  Events: a basic sync request (extended flag clear) for serial 5, the geometry change that
  promotes it, and the start of the next frame.
\<close>

definition basic_request_actions :: "action list" where
  "basic_request_actions =
     [Dispatch (ClientMessage 300 301 0 5 0 0) 10 0 0,
      Dispatch (ConfigureNotify 640 480) 20 0 0,
      BeginFrame]"

section \<open>Arithmetic of the two phase bits\<close>

text \<open>\<open>x & 3\<close> is \<open>x mod 4\<close>, and adding to \<open>x\<close> adds modulo 4, also where \<open>x\<close> wraps.\<close>

lemma three_mask: "(3 :: 64 word) = mask 2"
  by (simp add: mask_eq_exp_minus_1)

lemma and3_unat: "unat ((c::64 word) AND 3) = unat c mod 4"
  by (simp add: three_mask flip: take_bit_eq_mask) (simp add: unsigned_take_bit_eq take_bit_eq_mod unat_mod)

lemma unat_add_mod4: "unat ((c::64 word) + k) mod 4 = (unat c + unat k) mod 4"
proof -
  have "(4::nat) dvd 2 ^ 64" by simp
  then have "(unat c + unat k) mod 2 ^ 64 mod 4 = (unat c + unat k) mod 4"
    by (rule mod_mod_cancel)
  then show ?thesis by (simp add: unat_word_ariths)
qed

lemma and3_iff: "(c::64 word) AND 3 = k \<longleftrightarrow> unat c mod 4 = unat k"
  by (simp add: word_unat_eq_iff and3_unat)

lemma and3_add4: "((c::64 word) + 4) AND 3 = c AND 3"
  by (simp add: word_unat_eq_iff and3_unat unat_add_mod4)

lemma and3_add_small:
  "(c::64 word) AND 3 = 0 \<Longrightarrow> (c + 1) AND 3 = 1"
  "(c::64 word) AND 3 = 0 \<Longrightarrow> (c + 3) AND 3 = 3"
  "(c::64 word) AND 3 = 1 \<Longrightarrow> (c + 3) AND 3 = 0"
  "(c::64 word) AND 3 = 3 \<Longrightarrow> (c + 1) AND 3 = 0"
  by (simp_all add: and3_iff unat_add_mod4) presburger+

lemma and3_round: "(((c::64 word) + 3) AND NOT 3) AND 3 = 0"
  by (simp add: and.assoc)

lemma low_half_mask: "(0xFFFFFFFF :: 64 word) = mask 32"
  by (simp add: mask_eq_exp_minus_1)

lemma counter_value_sync_value: "counter_value (sync_value v) = v"
  unfolding counter_value_def sync_value_def XSyncIntsToValue_def low_half_mask
  apply simp
  apply (rule bit_word_eqI)
  apply (auto simp add: bit_simps)
  done

lemma sync_counter_effects:
  "have_xsync_extension s \<noteq> 0 \<Longrightarrow>
   effects (sync_counter s c x) = effects s @ [XSyncSetCounter c (sync_value x)]"
  by (simp add: sync_counter_def)

lemma sync_counter_no_extension:
  "have_xsync_extension s = 0 \<Longrightarrow> sync_counter s c x = s"
  by (simp add: sync_counter_def)

lemma sync_counter_fields:
  "current_sync_serial (sync_counter s c x) = current_sync_serial s"
  "inflight_sync_serial (sync_counter s c x) = inflight_sync_serial s"
  "configure_sync_serial (sync_counter s c x) = configure_sync_serial s"
  "configure_extended_sync (sync_counter s c x) = configure_extended_sync s"
  "request_sync_serial (sync_counter s c x) = request_sync_serial s"
  "request_extended_sync (sync_counter s c x) = request_extended_sync s"
  "extended_counter (sync_counter s c x) = extended_counter s"
  "update_counter (sync_counter s c x) = update_counter s"
  "have_xsync_extension (sync_counter s c x) = have_xsync_extension s"
  by (simp_all add: sync_counter_def)

section \<open>A normal frame cycle from the idle state\<close>

text \<open>
  A frame cycle from an idle state, whether or not the XSync extension is there:
  \<open>begin_frame\<close> with disposition normal, called in an idle state (\<open>current_sync_serial\<close> a
  multiple of 4) with no extended configured value pending, sets \<open>inflight_sync_serial\<close> to
  the old serial plus 4; the \<open>end_frame\<close> that follows leaves \<open>current_sync_serial\<close> at the
  old serial plus 4. With the extension each call writes exactly one value to the extended
  counter; \<open>sync_counter\<close> sends nothing without it.
\<close>

lemma begin_end_frame_normal_guarded:
  assumes idle: "unat (current_sync_serial s) mod 4 = 0"
    and nopending: "\<not> (configure_sync_serial s \<noteq> 0 \<and> configure_extended_sync s \<noteq> 0)"
  shows
    "effects (begin_frame s frame_normal) =
       effects s @
       (if have_xsync_extension s = 0 then []
        else [XSyncSetCounter (extended_counter s) (sync_value (current_sync_serial s + 1))])
     \<and> counter_value (sync_value (current_sync_serial s + 1)) = current_sync_serial s + 1
     \<and> inflight_sync_serial (begin_frame s frame_normal) = current_sync_serial s + 4
     \<and> effects (end_frame (begin_frame s frame_normal)) =
         effects (begin_frame s frame_normal) @
         (if have_xsync_extension s = 0 then []
          else [XSyncSetCounter (extended_counter s) (sync_value (current_sync_serial s + 4))])
     \<and> counter_value (sync_value (current_sync_serial s + 4)) = current_sync_serial s + 4
     \<and> current_sync_serial (end_frame (begin_frame s frame_normal)) = current_sync_serial s + 4
     \<and> unat (current_sync_serial (end_frame (begin_frame s frame_normal))) mod 4 = 0"
proof -
  from idle have a0: "current_sync_serial s AND 3 = 0" by (simp add: and3_iff)
  then have a1: "(current_sync_serial s + 1) AND 3 = 1" by (rule and3_add_small)
  define s4 where "s4 = s\<lparr>inflight_sync_serial := current_sync_serial s + 4,
                          current_sync_serial := current_sync_serial s + 1\<rparr>"
  define sb where "sb = begin_frame s frame_normal"
  have b: "sb = sync_counter s4 (extended_counter s) (current_sync_serial s + 1)"
    using nopending a0 by (auto simp add: sb_def begin_frame_def Let_def s4_def)
  have sbf: "current_sync_serial sb = current_sync_serial s + 1"
    "inflight_sync_serial sb = current_sync_serial s + 4"
    "configure_sync_serial sb = configure_sync_serial s"
    "configure_extended_sync sb = configure_extended_sync s"
    "extended_counter sb = extended_counter s"
    "have_xsync_extension sb = have_xsync_extension s"
    by (simp_all add: b sync_counter_fields s4_def)
  define s5 where "s5 = sb\<lparr>current_sync_serial := current_sync_serial s + 4\<rparr>"
  have e: "end_frame sb = sync_counter s5 (extended_counter s) (current_sync_serial s + 4)"
    using nopending a1
    by (auto simp add: end_frame_def Let_def sbf s5_def sync_counter_fields add.commute)
  have eb: "effects sb =
      effects s @
      (if have_xsync_extension s = 0 then []
       else [XSyncSetCounter (extended_counter s) (sync_value (current_sync_serial s + 1))])"
    by (simp add: b s4_def sync_counter_def)
  have ee: "effects (end_frame sb) =
      effects sb @
      (if have_xsync_extension s = 0 then []
       else [XSyncSetCounter (extended_counter s) (sync_value (current_sync_serial s + 4))])"
    by (simp add: e s5_def sync_counter_def sbf)
  have c: "current_sync_serial (end_frame sb) = current_sync_serial s + 4"
    by (simp add: e sync_counter_fields s5_def)
  have m: "unat (current_sync_serial s + 4) mod 4 = 0"
    using idle by (simp add: unat_add_mod4)
  from eb sbf(2) ee c m show ?thesis
    unfolding sb_def by (simp add: counter_value_sync_value)
qed

text \<open>
  Claim C1. With the counters negotiated (\<open>sync_init\<close> creates them exactly when the XSync
  extension is there), \<open>begin_frame\<close> with disposition normal, called in an idle state
  (\<open>current_sync_serial\<close> a multiple of 4) with no extended configured value pending, writes
  exactly one value to the extended counter, the old serial plus 1, and sets
  \<open>inflight_sync_serial\<close> to the old serial plus 4; the \<open>end_frame\<close> that follows writes
  exactly one more value to the extended counter, the old serial plus 4, and leaves
  \<open>current_sync_serial\<close> at that value, a multiple of 4 again. Sums are those of
  \<open>unsigned long\<close>.
\<close>

theorem begin_end_frame_normal:
  assumes ext: "have_xsync_extension s \<noteq> 0"
    and idle: "unat (current_sync_serial s) mod 4 = 0"
    and nopending: "\<not> (configure_sync_serial s \<noteq> 0 \<and> configure_extended_sync s \<noteq> 0)"
  shows
    "effects (begin_frame s frame_normal) =
       effects s @ [XSyncSetCounter (extended_counter s) (sync_value (current_sync_serial s + 1))]
     \<and> counter_value (sync_value (current_sync_serial s + 1)) = current_sync_serial s + 1
     \<and> inflight_sync_serial (begin_frame s frame_normal) = current_sync_serial s + 4
     \<and> effects (end_frame (begin_frame s frame_normal)) =
         effects (begin_frame s frame_normal) @
         [XSyncSetCounter (extended_counter s) (sync_value (current_sync_serial s + 4))]
     \<and> counter_value (sync_value (current_sync_serial s + 4)) = current_sync_serial s + 4
     \<and> current_sync_serial (end_frame (begin_frame s frame_normal)) = current_sync_serial s + 4
     \<and> unat (current_sync_serial (end_frame (begin_frame s frame_normal))) mod 4 = 0"
proof -
  from ext have e: "(have_xsync_extension s = 0) = False" by simp
  show ?thesis
    using begin_end_frame_normal_guarded [OF idle nopending] unfolding e if_False .
qed

theorem begin_end_frame_normal_witness:
  "have_xsync_extension (start_state\<lparr>current_sync_serial := 8\<rparr>) \<noteq> 0
   \<and> unat (current_sync_serial (start_state\<lparr>current_sync_serial := 8\<rparr>)) mod 4 = 0
   \<and> \<not> (configure_sync_serial (start_state\<lparr>current_sync_serial := 8\<rparr>) \<noteq> 0
        \<and> configure_extended_sync (start_state\<lparr>current_sync_serial := 8\<rparr>) \<noteq> 0)
   \<and> effects (begin_frame (start_state\<lparr>current_sync_serial := 8\<rparr>) frame_normal) =
         [XSyncSetCounter 4194306 (sync_value 9)]
   \<and> counter_value (sync_value 9) = 9
   \<and> inflight_sync_serial (begin_frame (start_state\<lparr>current_sync_serial := 8\<rparr>) frame_normal) = 12
   \<and> effects (end_frame (begin_frame (start_state\<lparr>current_sync_serial := 8\<rparr>) frame_normal)) =
         [XSyncSetCounter 4194306 (sync_value 9), XSyncSetCounter 4194306 (sync_value 12)]
   \<and> counter_value (sync_value 12) = 12
   \<and> current_sync_serial
         (end_frame (begin_frame (start_state\<lparr>current_sync_serial := 8\<rparr>) frame_normal)) = 12"
proof -
  let ?s = "start_state\<lparr>current_sync_serial := 8\<rparr>"
  have h1: "have_xsync_extension ?s \<noteq> 0" by (simp add: start_state_def)
  have h2: "unat (current_sync_serial ?s) mod 4 = 0" by simp
  have h3: "\<not> (configure_sync_serial ?s \<noteq> 0 \<and> configure_extended_sync ?s \<noteq> 0)"
    by (simp add: start_state_def)
  have f: "effects ?s = []" "extended_counter ?s = 4194306" "current_sync_serial ?s = 8"
    by (simp_all add: start_state_def)
  from begin_end_frame_normal [OF h1 h2 h3] h1 h2 h3 show ?thesis
    unfolding f by simp
qed

section \<open>The idle invariant\<close>

text \<open>
  \<open>begin_frame\<close> leaves the phase bits at 01 (normal) or 11 (urgent) whatever the state
  before it, \<open>end_frame\<close> clears them, and no event other than an exposure touches
  \<open>current_sync_serial\<close>.
\<close>

lemma begin_frame_phase:
  "current_sync_serial (begin_frame s disposition) AND 3 =
     (if disposition = frame_urgent then 3 else 1)"
proof -
  define c where "c = (if configure_sync_serial s \<noteq> 0 \<and> configure_extended_sync s \<noteq> 0
                       then configure_sync_serial s else current_sync_serial s)"
  define c' where "c' = (if c AND 3 \<noteq> 0 then (c + 3) AND NOT 3 else c)"
  have al: "c' AND 3 = 0" using and3_round [of c] by (simp add: c'_def)
  have "current_sync_serial (begin_frame s disposition) =
          c' + (if disposition = frame_urgent then 3 else 1)"
    by (simp add: begin_frame_def Let_def sync_counter_fields c'_def c_def)
  with al show ?thesis by (simp add: and3_add_small)
qed

lemma end_frame_phase:
  "current_sync_serial s AND 3 = 1 \<or> current_sync_serial s AND 3 = 3 \<or> current_sync_serial s AND 3 = 0
   \<Longrightarrow> current_sync_serial (end_frame s) AND 3 = 0"
  by (auto simp add: end_frame_def Let_def sync_counter_fields and3_add_small)

lemma process_event_current:
  "e \<noteq> Expose \<Longrightarrow>
   \<exists>s'. process_event F s e t0 t1 t2 = Some s' \<and> current_sync_serial s' = current_sync_serial s"
  by (cases e) (simp_all add: Let_def sync_counter_fields)

lemma cycles_take: "cycles f as \<Longrightarrow> cycles f (take n as)"
proof (induction f as arbitrary: n rule: cycles.induct)
  case (1 f) then show ?case by simp
next
  case (2 f as) then show ?case by (cases n) simp_all
next
  case (3 f as) then show ?case by (cases n) simp_all
next
  case (4 f e t0 t1 t2 as) then show ?case by (cases n) simp_all
qed

lemma run_cycles:
  "cycles f as \<Longrightarrow> (f \<longrightarrow> current_sync_serial s AND 3 = 1)
   \<Longrightarrow> (b \<longrightarrow> current_sync_serial s AND 3 = 0)
   \<Longrightarrow> \<exists>s'. run F s as = Some s' \<and> (between_cycles b as \<longrightarrow> current_sync_serial s' AND 3 = 0)"
proof (induction as arbitrary: f s b)
  case Nil
  then show ?case by simp
next
  case (Cons a as)
  show ?case
  proof (cases a)
    case BeginFrame
    with Cons.prems have cy: "cycles True as" by simp
    have ph: "True \<longrightarrow> current_sync_serial (begin_frame s frame_normal) AND 3 = 1"
      by (simp add: begin_frame_phase)
    have "False \<longrightarrow> current_sync_serial (begin_frame s frame_normal) AND 3 = 0" by simp
    from Cons.IH [OF cy ph this] BeginFrame show ?thesis by simp
  next
    case EndFrame
    with Cons.prems have cy: "cycles False as" and "current_sync_serial s AND 3 = 1"
      by simp_all
    then have z: "current_sync_serial (end_frame s) AND 3 = 0"
      by (simp add: end_frame_phase)
    then have 1: "False \<longrightarrow> current_sync_serial (end_frame s) AND 3 = 1"
      and 2: "True \<longrightarrow> current_sync_serial (end_frame s) AND 3 = 0" by simp_all
    from Cons.IH [OF cy 1 2] EndFrame show ?thesis by simp
  next
    case (Dispatch e t0 t1 t2)
    with Cons.prems have ne: "e \<noteq> Expose" and cy: "cycles f as" by simp_all
    from process_event_current [OF ne, of F s t0 t1 t2]
    obtain s1 where s1: "process_event F s e t0 t1 t2 = Some s1"
      "current_sync_serial s1 = current_sync_serial s" by blast
    from Cons.prems s1
    have 1: "f \<longrightarrow> current_sync_serial s1 AND 3 = 1"
      and 2: "b \<longrightarrow> current_sync_serial s1 AND 3 = 0" by simp_all
    from Cons.IH [OF cy 1 2] Dispatch s1 show ?thesis by simp
  qed
qed

text \<open>
  Claim C2. Take any sequence of \<open>begin_frame\<close>(normal)/\<open>end_frame\<close> pairs with events
  dispatched anywhere among them (sync requests, geometry changes, frame-drawn and
  frame-timings messages, pings, any event but an exposure), from any state. Every prefix of
  it runs to a state, and at every point strictly between cycles, that is, after an
  \<open>end_frame\<close> and before the next \<open>begin_frame\<close>, \<open>current_sync_serial\<close> is a multiple
  of 4.
\<close>

theorem idle_between_cycles:
  assumes "cycles False as"
  shows "\<forall>n \<le> length as. \<exists>s'. run F s (take n as) = Some s' \<and>
           (between_cycles False (take n as) \<longrightarrow> unat (current_sync_serial s') mod 4 = 0)"
proof (intro allI impI)
  fix n
  from assms have "cycles False (take n as)" by (rule cycles_take)
  from run_cycles [OF this, of s False F]
  show "\<exists>s'. run F s (take n as) = Some s' \<and>
           (between_cycles False (take n as) \<longrightarrow> unat (current_sync_serial s') mod 4 = 0)"
    by (simp add: and3_iff)
qed

theorem idle_between_cycles_witness:
  "cycles False example_actions \<and> 4 \<le> length example_actions
   \<and> between_cycles False (take 4 example_actions)
   \<and> (\<exists>s'. run exact_fpu start_state (take 4 example_actions) = Some s'
         \<and> unat (current_sync_serial s') mod 4 = 0)"
proof -
  have h: "cycles False example_actions" by (simp add: example_actions_def)
  have n: "4 \<le> length example_actions" by (simp add: example_actions_def)
  have b: "between_cycles False (take 4 example_actions)" by (simp add: example_actions_def)
  from idle_between_cycles [OF h, of exact_fpu start_state, rule_format, OF n] h n b
  show ?thesis by simp
qed

section \<open>Backpressure\<close>

text \<open>
  The delay of 2000 microseconds is added to a \<open>long\<close>; the sum is the sum of the integers
  unless that overflows.
\<close>

lemma long_add_2000:
  assumes "sint (now :: long) + 2000 < 2 ^ 63"
  shows "sint (now + 2000) = sint now + 2000"
proof -
  have ge: "- (2 ^ 63) \<le> sint now + 2000"
    using sint_ge [of now] by simp
  have "sint (now + 2000) = signed_take_bit 63 (sint now + sint (2000 :: long))"
    by (simp add: sint_word_ariths)
  also have "\<dots> = signed_take_bit 63 (sint now + 2000)" by simp
  also have "\<dots> = sint now + 2000"
    using ge assms by (intro signed_take_bit_int_eq_self) simp_all
  finally show ?thesis .
qed

text \<open>
  Claim C3. When \<open>timing_sync_serial\<close> is positive and below \<open>inflight_sync_serial\<close>,
  \<open>submit_frame\<close> returns the state it was called in with three changes only:
  \<open>current_time\<close> is the clock reading \<open>now\<close>, \<open>next_draw_time\<close> is \<open>now + 2000\<close>, and
  one request, \<open>XSync\<close>, which flushes the connection, has been issued. So the renderer is
  not invoked (no \<open>Reshape\<close>, \<open>DrawFrame\<close> or \<open>glXSwapBuffers\<close>), and \<open>frame_number\<close>,
  \<open>last_draw_time\<close> and both averaging buffers are as before.
\<close>

theorem submit_frame_backpressure:
  assumes "0 < timing_sync_serial s"
    and "timing_sync_serial s < inflight_sync_serial s"
  shows "submit_frame F s disposition target_frame_rate now now_end =
           Some (s\<lparr>current_time := now, next_draw_time := now + 2000,
                   effects := effects s @ [XSync]\<rparr>)"
  using assms by (simp add: submit_frame_def)

theorem submit_frame_backpressure_witness:
  "0 < timing_sync_serial backpressure_state
   \<and> timing_sync_serial backpressure_state < inflight_sync_serial backpressure_state
   \<and> submit_frame exact_fpu backpressure_state frame_normal (frame_rate backpressure_state)
         66732 67000 =
       Some (backpressure_state\<lparr>current_time := 66732, next_draw_time := 68732,
                                effects := [XSync]\<rparr>)"
proof -
  have h1: "0 < timing_sync_serial backpressure_state"
    and h2: "timing_sync_serial backpressure_state < inflight_sync_serial backpressure_state"
    and e: "effects backpressure_state = []"
    by (simp_all add: backpressure_state_def start_state_def)
  from submit_frame_backpressure [OF h1 h2, of exact_fpu frame_normal
      "frame_rate backpressure_state" 66732 67000] h1 h2 e
  show ?thesis by simp
qed

section \<open>The basic counter at the end of a frame\<close>

text \<open>
  The block of \<open>end_frame\<close> that writes the basic counter runs only when the extended flag
  is set: with the flag clear, \<open>end_frame\<close> writes nothing to the basic counter and keeps
  the configured value.
\<close>

lemma end_frame_basic_skipped:
  assumes "configure_extended_sync s = 0"
  shows "configure_sync_serial (end_frame s) = configure_sync_serial s"
    and "effects (end_frame s) =
           effects s @
           (if have_xsync_extension s \<noteq> 0 \<and> current_sync_serial s AND 3 = 1
            then [XSyncSetCounter (extended_counter s) (sync_value (current_sync_serial s + 3))]
            else if have_xsync_extension s \<noteq> 0 \<and> current_sync_serial s AND 3 = 3
            then [XSyncSetCounter (extended_counter s) (sync_value (current_sync_serial s + 1))]
            else [])"
  using assms by (auto simp add: end_frame_def Let_def sync_counter_def)

text \<open>
  Claim C4, evaluated where it fails. A basic sync request for serial 5 (extended flag
  clear) has been promoted by a geometry change and a frame has begun: the configured value
  5 is pending. \<open>end_frame\<close> then writes the extended counter only (0 at the geometry
  change, 1 and 4 for the frame); nothing is written to the basic counter 4194305, and the
  configured value is still 5 afterwards.
\<close>

theorem end_frame_basic_request_unpublished:
  "map_option configure_sync_serial (run exact_fpu start_state basic_request_actions) = Some 5
   \<and> map_option configure_extended_sync (run exact_fpu start_state basic_request_actions) = Some 0
   \<and> map_option have_xsync_extension (run exact_fpu start_state basic_request_actions) = Some 1
   \<and> map_option effects (run exact_fpu start_state (basic_request_actions @ [EndFrame])) =
       Some [XSyncSetCounter 4194306 (sync_value 0), XSyncSetCounter 4194306 (sync_value 1),
             XSyncSetCounter 4194306 (sync_value 4)]
   \<and> map_option configure_sync_serial
        (run exact_fpu start_state (basic_request_actions @ [EndFrame])) = Some 5"
  by code_simp

section \<open>Frames submitted for an exposure\<close>

text \<open>\<open>submit_frame\<close> does the same whatever disposition it is called with.\<close>

lemma submit_frame_ignores_disposition:
  "submit_frame F s frame_urgent r now now_end = submit_frame F s frame_normal r now now_end"
  by (simp add: submit_frame_def)

text \<open>
  Claim C5, evaluated where it fails. An \<open>Expose\<close> event in the start state (no
  backpressure) submits a frame; the value that its \<open>begin_frame\<close> writes to the extended
  counter is 1, the serial advanced by 1 as for a normal frame, not 3.
\<close>

theorem expose_frame_not_urgent:
  "map_option effects (process_event exact_fpu start_state Expose 1000 1001 1500) =
     Some [XFlush, Reshape 500 500, DrawFrame 0, XSyncSetCounter 4194306 (sync_value 1),
           glXSwapBuffers, XSyncSetCounter 4194306 (sync_value 4)]
   \<and> counter_value (sync_value 1) = 1
   \<and> map_option current_sync_serial (process_event exact_fpu start_state Expose 1000 1001 1500)
       = Some 4"
  by code_simp

section \<open>Frame-drawn and frame-timings messages\<close>

text \<open>
  What the two message cases do with the value they decode, \<open>(l[1] << 32) | l[0]\<close>, where
  the atoms are distinct, as the server interns them: a decoded value above the stored mark
  replaces it, any other leaves the state as it was. In each case \<open>current_time\<close> is the
  clock reading that \<open>process_event\<close> takes for every event; no other variable changes and
  no request is sent.
\<close>

lemma frame_decoded_serial_high_water:
  assumes "WM_PROTOCOLS s \<noteq> NET_WM_FRAME_DRAWN s"
    and "WM_PROTOCOLS s \<noteq> NET_WM_FRAME_TIMINGS s"
    and "NET_WM_FRAME_DRAWN s \<noteq> NET_WM_FRAME_TIMINGS s"
  shows
    "(push_bit 32 l1 OR l0 > drawn_sync_serial s \<longrightarrow>
        process_event F s (ClientMessage (NET_WM_FRAME_DRAWN s) l0 l1 l2 l3 l4) t0 t1 t2 =
          Some (s\<lparr>current_time := t0, drawn_sync_serial := push_bit 32 l1 OR l0\<rparr>))
   \<and> (push_bit 32 l1 OR l0 \<le> drawn_sync_serial s \<longrightarrow>
        process_event F s (ClientMessage (NET_WM_FRAME_DRAWN s) l0 l1 l2 l3 l4) t0 t1 t2 =
          Some (s\<lparr>current_time := t0\<rparr>))
   \<and> (push_bit 32 l1 OR l0 > timing_sync_serial s \<longrightarrow>
        process_event F s (ClientMessage (NET_WM_FRAME_TIMINGS s) l0 l1 l2 l3 l4) t0 t1 t2 =
          Some (s\<lparr>current_time := t0, timing_sync_serial := push_bit 32 l1 OR l0\<rparr>))
   \<and> (push_bit 32 l1 OR l0 \<le> timing_sync_serial s \<longrightarrow>
        process_event F s (ClientMessage (NET_WM_FRAME_TIMINGS s) l0 l1 l2 l3 l4) t0 t1 t2 =
          Some (s\<lparr>current_time := t0\<rparr>))"
  using assms by (auto simp add: Let_def)

text \<open>
  The decoded value is the serial that the message carries when bit 31 of the serial is
  clear. Then the low half arrives as a non-negative \<open>long\<close>; the sign extension of the
  high half is shifted out.
\<close>

lemma serial_message_decode:
  assumes "\<not> bit serial 31"
  shows "push_bit 32 (wire_long (ucast (drop_bit 32 serial))) OR wire_long (ucast serial) = serial"
proof (rule bit_word_eqI)
  fix n
  assume "n < LENGTH(64)"
  then consider "n < 31" | "n = 31" | "32 \<le> n" "n < 63" | "n = 63"
    by force
  then show "bit (push_bit 32 (wire_long (ucast (drop_bit 32 serial))) OR wire_long (ucast serial)) n
               = bit serial n"
  proof cases
    case 1
    then show ?thesis by (simp add: wire_long_def bit_simps min_def)
  next
    case 2
    with assms show ?thesis by (simp add: wire_long_def bit_simps min_def)
  next
    case 3
    with assms show ?thesis by (auto simp add: wire_long_def bit_simps min_def)
  next
    case 4
    with assms show ?thesis by (simp add: wire_long_def bit_simps min_def)
  qed
qed

lemma frame_serial_high_water_bit31_clear:
  assumes "WM_PROTOCOLS s \<noteq> NET_WM_FRAME_DRAWN s"
    and "WM_PROTOCOLS s \<noteq> NET_WM_FRAME_TIMINGS s"
    and "NET_WM_FRAME_DRAWN s \<noteq> NET_WM_FRAME_TIMINGS s"
    and "\<not> bit serial 31"
  shows
    "(serial > drawn_sync_serial s \<longrightarrow>
        process_event F s (serial_message (NET_WM_FRAME_DRAWN s) serial l2 l3 l4) t0 t1 t2 =
          Some (s\<lparr>current_time := t0, drawn_sync_serial := serial\<rparr>))
   \<and> (serial \<le> drawn_sync_serial s \<longrightarrow>
        process_event F s (serial_message (NET_WM_FRAME_DRAWN s) serial l2 l3 l4) t0 t1 t2 =
          Some (s\<lparr>current_time := t0\<rparr>))
   \<and> (serial > timing_sync_serial s \<longrightarrow>
        process_event F s (serial_message (NET_WM_FRAME_TIMINGS s) serial l2 l3 l4) t0 t1 t2 =
          Some (s\<lparr>current_time := t0, timing_sync_serial := serial\<rparr>))
   \<and> (serial \<le> timing_sync_serial s \<longrightarrow>
        process_event F s (serial_message (NET_WM_FRAME_TIMINGS s) serial l2 l3 l4) t0 t1 t2 =
          Some (s\<lparr>current_time := t0\<rparr>))"
  using frame_decoded_serial_high_water [OF assms(1-3),
      of "wire_long (ucast (drop_bit 32 serial))" "wire_long (ucast serial)" F l2 l3 l4 t0 t1 t2]
  by (simp only: serial_message_def serial_message_decode [OF assms(4)])

text \<open>
  Claim C6, evaluated where it fails. The stored marks are \<open>2^32\<close>. A frame-drawn message
  carries the serial \<open>2^31\<close>, which is below the mark: the low half arrives as the negative
  \<open>long\<close> \<open>-2^31\<close>, the source combines the halves without masking it, and
  \<open>drawn_sync_serial\<close> becomes 18446744071562067968. A frame-timings message does the same
  to \<open>timing_sync_serial\<close>.
\<close>

theorem frame_serial_sign_extended:
  "(2147483648 :: ulong) \<le> drawn_sync_serial marked_state
   \<and> map_option drawn_sync_serial
        (process_event exact_fpu marked_state
           (serial_message (NET_WM_FRAME_DRAWN marked_state) 2147483648 0 0 0) 50 0 0)
       = Some 18446744071562067968
   \<and> (2147483648 :: ulong) \<le> timing_sync_serial marked_state
   \<and> map_option timing_sync_serial
        (process_event exact_fpu marked_state
           (serial_message (NET_WM_FRAME_TIMINGS marked_state) 2147483648 0 0 0) 50 0 0)
       = Some 18446744071562067968"
  by code_simp

section \<open>The running sum and the average\<close>

text \<open>
  After the samples \<open>xs\<close>, a buffer that started in static storage holds the 31 most recent
  of them, laid out as a ring, and their sum.
\<close>

lemma length_last_samples: "length (last_samples xs) = 31"
  by (simp add: last_samples_def)

lemma length_ring_of: "length (ring_of xs) = 31"
  by (simp add: ring_of_def length_last_samples)

lemma last_samples_snoc: "last_samples (xs @ [v]) = tl (last_samples xs) @ [v]"
proof -
  have "last_samples (xs @ [v]) = drop (Suc (length xs)) ((replicate 31 0 @ xs) @ [v])"
    by (simp add: last_samples_def)
  also have "\<dots> = drop (Suc (length xs)) (replicate 31 0 @ xs) @ [v]"
    by simp
  also have "drop (Suc (length xs)) (replicate 31 0 @ xs) = tl (last_samples xs)"
    by (simp only: last_samples_def drop_Suc tl_drop)
  finally show ?thesis .
qed

lemma ring_of_snoc: "ring_of (xs @ [v]) = (ring_of xs)[length xs mod 31 := v]"
proof -
  define L where "L = last_samples xs"
  define k where "k = length xs mod 31"
  have lenL: "length L = 31" by (simp add: L_def length_last_samples)
  have k: "k < 31" by (simp add: k_def)
  obtain y ys where L: "L = y # ys" and lys: "length ys = 30"
    using lenL by (cases L) simp_all
  have old: "ring_of xs = drop (31 - k) L @ take (31 - k) L"
    by (simp add: ring_of_def L_def k_def)
  have new: "ring_of (xs @ [v]) =
      drop (31 - Suc (length xs) mod 31) (ys @ [v]) @ take (31 - Suc (length xs) mod 31) (ys @ [v])"
    by (simp add: ring_of_def last_samples_snoc flip: L_def) (simp add: L)
  show ?thesis
  proof (cases "k = 30")
    case True
    then have "Suc (length xs) mod 31 = 0"
      unfolding k_def by (simp add: mod_Suc)
    with new lys have n: "ring_of (xs @ [v]) = ys @ [v]" by simp
    from old True L lys have "ring_of xs = ys @ [y]" by simp
    with n lys True show ?thesis by (simp add: k_def [symmetric] list_update_append)
  next
    case False
    with k have k29: "k < 30" by simp
    then have m: "Suc (length xs) mod 31 = Suc k"
      unfolding k_def by (simp add: mod_Suc)
    define j where "j = 29 - k"
    have j: "31 - k = Suc (Suc j)" and j': "30 - k = Suc j" and jk: "j + k = 29"
      using k29 by (simp_all add: j_def)
    have n: "ring_of (xs @ [v]) = drop (Suc j) ys @ [v] @ take (Suc j) ys"
      using new m j' lys by simp
    have o: "ring_of xs = drop (Suc j) ys @ (y # take (Suc j) ys)"
      using old j L by simp
    have "length (drop (Suc j) ys) = k" using lys jk by simp
    with o n show ?thesis
      by (simp add: k_def [symmetric] list_update_append)
  qed
qed

lemma sum_list_update_word:
  "i < length xs \<Longrightarrow> sum_list (xs[i := v]) = sum_list xs + (v - xs ! i)"
  for xs :: "'a::len word list"
  by (induction xs arbitrary: i) (auto split: nat.splits)

lemma cb_holds_zero: "cb_holds circular_buffer_zero []"
  by (simp add: cb_holds_def circular_buffer_zero_def ring_of_def last_samples_def
        sum_list_replicate)

lemma unat_of_nat_small: "k < 32 \<Longrightarrow> unat (of_nat k :: 64 word) = k"
  by (simp add: unat_of_nat)

lemma cb_holds_add:
  assumes "cb_holds b xs"
  shows "\<exists>b'. circular_buffer_add b v = Some b' \<and> cb_holds b' (xs @ [v])"
proof -
  define k where "k = length xs mod 31"
  have k: "k < 31" by (simp add: k_def)
  from assms have s: "cb_samples b = ring_of xs" and o: "cb_offset b = of_nat k"
    and c: "cb_count b = of_nat (length xs)" and sm: "cb_sum b = sum_list (cb_samples b)"
    by (simp_all add: cb_holds_def k_def)
  have uo: "unat (cb_offset b) = k" using o k by (simp add: unat_of_nat_small)
  have len: "length (cb_samples b) = 31" by (simp add: s length_ring_of)
  have nk: "Suc (length xs) mod 31 = (if k = 30 then 0 else Suc k)"
    using k unfolding k_def by (simp add: mod_Suc)
  have wrap: "(of_nat k + 1 :: 64 word) \<ge> 31 \<longleftrightarrow> k = 30"
  proof -
    have e: "(of_nat k + 1 :: 64 word) = of_nat (Suc k)" by simp
    have "unat (of_nat (Suc k) :: 64 word) = Suc k"
      using k by (intro unat_of_nat_small) simp
    then have "unat (of_nat k + 1 :: 64 word) = Suc k" by (simp only: e)
    then show ?thesis using k by (auto simp add: word_le_nat_alt)
  qed
  show ?thesis
    using k uo len sm wrap
    apply (simp add: circular_buffer_add_def Let_def samples_size_def cb_holds_def o c
              sum_list_update_word)
    apply (simp add: s ring_of_snoc nk flip: k_def)
    done
qed

lemma add_samples_holds:
  "cb_holds b xs \<Longrightarrow> \<exists>b'. add_samples b ys = Some b' \<and> cb_holds b' (xs @ ys)"
proof (induction ys arbitrary: b xs)
  case Nil
  then show ?case by simp
next
  case (Cons y ys)
  from cb_holds_add [OF Cons.prems, of y]
  obtain b1 where b1: "circular_buffer_add b y = Some b1" "cb_holds b1 (xs @ [y])" by blast
  from Cons.IH [OF b1(2)] b1(1) show ?case by simp
qed

lemma sum_list_ring_of: "sum_list (ring_of xs) = sum_list (drop (length xs - 31) xs)"
proof -
  have "sum_list (ring_of xs) = sum_list (last_samples xs)"
    unfolding ring_of_def
    by (metis add.commute append_take_drop_id sum_list.append)
  also have "\<dots> = sum_list (drop (length xs - 31) xs)"
    by (simp add: last_samples_def sum_list_replicate)
  finally show ?thesis .
qed

lemma sum_list_word_of_int:
  "sum_list ws = (word_of_int (\<Sum>w\<leftarrow>ws. sint w) :: 64 word)"
  by (induction ws) simp_all

lemma sint_sum_list:
  assumes "- (2 ^ 63) \<le> (\<Sum>w\<leftarrow>ws. sint w)" "(\<Sum>w\<leftarrow>ws. sint w) < 2 ^ 63"
  shows "sint (sum_list ws :: 64 word) = (\<Sum>w\<leftarrow>ws. sint w)"
proof -
  have "sint (sum_list ws :: 64 word) = signed_take_bit 63 (\<Sum>w\<leftarrow>ws. sint w)"
    by (simp add: sum_list_word_of_int [of ws] sint_sbintrunc')
  also have "\<dots> = (\<Sum>w\<leftarrow>ws. sint w)"
    using assms by (intro signed_take_bit_int_eq_self) simp_all
  finally show ?thesis .
qed

lemma uint_eq_sint:
  assumes "0 \<le> sint (w :: 64 word)"
  shows "uint w = sint w"
proof -
  have "sint w < 2 ^ 64" using sint_lt [of w] by simp
  with assms have "take_bit 64 (sint w) = sint w"
    by (intro take_bit_int_eq_self) simp_all
  then show ?thesis by (simp add: uint_sint [of w])
qed

lemma sint_div_31:
  assumes "0 \<le> sint (w :: 64 word)"
  shows "sint (w div 31) = sint w div 31"
proof -
  have u: "uint (w div 31) = sint w div 31"
    using uint_eq_sint [OF assms] by (simp add: uint_div)
  have "sint w < 2 ^ 63" using sint_lt [of w] by simp
  moreover have "sint w div 31 \<le> sint w div 1"
    using assms by (intro zdiv_mono2) simp_all
  ultimately have lt: "sint w div 31 < 2 ^ 63" by simp
  from assms have "0 \<le> sint w div 31" by (simp add: pos_imp_zdiv_nonneg_iff)
  then have ge: "- (2 ^ 63) \<le> sint w div 31" by simp
  have "sint (w div 31) = signed_take_bit 63 (sint w div 31)"
    by (simp add: sint_uint [of "w div 31"] u)
  also have "\<dots> = sint w div 31"
    using ge lt by (intro signed_take_bit_int_eq_self) simp_all
  finally show ?thesis .
qed

text \<open>
  Claim C7, as amended. From a buffer in static storage, every sequence of insertions
  succeeds, and afterwards \<open>sum\<close> is the sum, in 64-bit arithmetic, of the most recent
  \<open>min n 31\<close> samples; it is their sum as integers whenever that fits a \<open>long\<close>. After 32
  insertions \<open>sum\<close> is the sum of all but the first. After exactly 31 insertions whose sum
  as integers is not negative and fits a \<open>long\<close>, the average is that sum divided by 31,
  rounded down.
\<close>

theorem circular_buffer_running_sum:
  "\<exists>b. add_samples circular_buffer_zero xs = Some b
      \<and> cb_sum b = sum_list (drop (length xs - 31) xs)
      \<and> (- (2 ^ 63) \<le> (\<Sum>x\<leftarrow>drop (length xs - 31) xs. sint x)
           \<and> (\<Sum>x\<leftarrow>drop (length xs - 31) xs. sint x) < 2 ^ 63
         \<longrightarrow> sint (cb_sum b) = (\<Sum>x\<leftarrow>drop (length xs - 31) xs. sint x))
      \<and> (length xs = 32 \<longrightarrow> cb_sum b = sum_list (tl xs))
      \<and> (length xs = 31 \<and> 0 \<le> (\<Sum>x\<leftarrow>xs. sint x) \<and> (\<Sum>x\<leftarrow>xs. sint x) < 2 ^ 63
         \<longrightarrow> sint (circular_buffer_average b) = (\<Sum>x\<leftarrow>xs. sint x) div 31)"
proof -
  from add_samples_holds [OF cb_holds_zero, of xs]
  obtain b where b: "add_samples circular_buffer_zero xs = Some b" and h: "cb_holds b xs"
    by auto
  from h have sum: "cb_sum b = sum_list (drop (length xs - 31) xs)"
    by (simp add: cb_holds_def sum_list_ring_of)
  have signed: "sint (cb_sum b) = (\<Sum>x\<leftarrow>drop (length xs - 31) xs. sint x)"
    if "- (2 ^ 63) \<le> (\<Sum>x\<leftarrow>drop (length xs - 31) xs. sint x)"
      and "(\<Sum>x\<leftarrow>drop (length xs - 31) xs. sint x) < 2 ^ 63"
    using that by (simp add: sum sint_sum_list)
  have tl: "cb_sum b = sum_list (tl xs)" if "length xs = 32"
    using that by (simp add: sum drop_Suc)
  have avg: "sint (circular_buffer_average b) = (\<Sum>x\<leftarrow>xs. sint x) div 31"
    if l: "length xs = 31" and nn: "0 \<le> (\<Sum>x\<leftarrow>xs. sint x)" and lt: "(\<Sum>x\<leftarrow>xs. sint x) < 2 ^ 63"
  proof -
    from h l have c: "cb_count b = 31" by (simp add: cb_holds_def)
    from l sum have s: "cb_sum b = sum_list xs" by simp
    have ss: "sint (sum_list xs) = (\<Sum>x\<leftarrow>xs. sint x)"
      using nn lt by (intro sint_sum_list) simp_all
    have "circular_buffer_average b = sum_list xs div 31"
      by (simp add: circular_buffer_average_def c s samples_size_def)
    then show ?thesis using sint_div_31 [of "sum_list xs"] ss nn by simp
  qed
  from b sum signed tl avg show ?thesis by simp
qed

theorem circular_buffer_running_sum_witness:
  "length distinct_samples = 32
   \<and> (\<exists>b. add_samples circular_buffer_zero distinct_samples = Some b
         \<and> cb_sum b = sum_list (tl distinct_samples))
   \<and> length (take 31 distinct_samples) = 31
   \<and> 0 \<le> (\<Sum>x\<leftarrow>take 31 distinct_samples. sint x)
   \<and> (\<Sum>x\<leftarrow>take 31 distinct_samples. sint x) < 2 ^ 63
   \<and> (\<exists>b. add_samples circular_buffer_zero (take 31 distinct_samples) = Some b
         \<and> sint (circular_buffer_average b) = (\<Sum>x\<leftarrow>take 31 distinct_samples. sint x) div 31)"
proof -
  have l32: "length distinct_samples = 32" by code_simp
  have l31: "length (take 31 distinct_samples) = 31" by code_simp
  have r: "0 \<le> (\<Sum>x\<leftarrow>take 31 distinct_samples. sint x)"
    "(\<Sum>x\<leftarrow>take 31 distinct_samples. sint x) < 2 ^ 63" by code_simp+
  from circular_buffer_running_sum [of distinct_samples] l32
  have A: "\<exists>b. add_samples circular_buffer_zero distinct_samples = Some b
         \<and> cb_sum b = sum_list (tl distinct_samples)" by auto
  from circular_buffer_running_sum [of "take 31 distinct_samples"] l31 r
  have B: "\<exists>b. add_samples circular_buffer_zero (take 31 distinct_samples) = Some b
         \<and> sint (circular_buffer_average b) = (\<Sum>x\<leftarrow>take 31 distinct_samples. sint x) div 31"
    by auto
  from l32 A l31 r B show ?thesis by (intro conjI)
qed

text \<open>
  The average is not the arithmetic mean: 31 samples that sum to 63 have the average 2, and
  31 samples of \<open>-1\<close> have the average 595056260442243599, the quotient of the sum read as
  an \<open>unsigned long\<close>.
\<close>

theorem circular_buffer_average_counterexample:
  "length uneven_samples = 31
   \<and> sum_list (map sint uneven_samples) = 63
   \<and> map_option circular_buffer_average (add_samples circular_buffer_zero uneven_samples) = Some 2
   \<and> length negative_samples = 31
   \<and> sum_list (map sint negative_samples) = - 31
   \<and> map_option circular_buffer_average (add_samples circular_buffer_zero negative_samples)
       = Some 595056260442243599"
  by code_simp

section \<open>The rate of exposure frames\<close>

text \<open>
  A frame that is not held back by the backpressure guard, drawn with valid buffers, is
  submitted, and the next draw time is the clock reading plus \<open>(long)(1e6f / rate)\<close> for
  the rate that \<open>submit_frame\<close> was called with.
\<close>

lemma circular_buffer_add_valid:
  "cb_valid b \<Longrightarrow> \<exists>b'. circular_buffer_add b v = Some b'"
  by (simp add: cb_valid_def circular_buffer_add_def Let_def)

lemma sync_counter_next_draw_time:
  "next_draw_time (sync_counter s c x) = next_draw_time s"
  "render_time_buffer (sync_counter s c x) = render_time_buffer s"
  by (simp_all add: sync_counter_def)

lemma frame_steps_keep_schedule:
  "next_draw_time (draw_frame s) = next_draw_time s"
  "render_time_buffer (draw_frame s) = render_time_buffer s"
  "next_draw_time (begin_frame s d) = next_draw_time s"
  "render_time_buffer (begin_frame s d) = render_time_buffer s"
  "next_draw_time (end_frame s) = next_draw_time s"
  "render_time_buffer (end_frame s) = render_time_buffer s"
  by (simp_all add: draw_frame_def begin_frame_def end_frame_def Let_def
        sync_counter_next_draw_time)

lemma submit_frame_next_draw_time:
  assumes ns: "\<not> (0 < timing_sync_serial s \<and> timing_sync_serial s < inflight_sync_serial s)"
    and fb: "last_draw_time s \<noteq> 0 \<longrightarrow> cb_valid (frame_time_buffer s)"
    and rb: "cb_valid (render_time_buffer s)"
  shows "\<exists>s'. submit_frame F s d r now now_end = Some s' \<and>
           next_draw_time s' = now + float_to_long F (fdiv F 1000000 r)"
proof -
  define s0 where "s0 = s\<lparr>current_time := now\<rparr>"
  define first where "first =
     (if last_draw_time s0 \<noteq> 0 then
        let s' = s0\<lparr>delta_time := current_time s0 - last_draw_time s0\<rparr>
        in map_option (\<lambda>b. s'\<lparr>frame_time_buffer := b\<rparr>)
             (circular_buffer_add (frame_time_buffer s') (delta_time s'))
      else Some s0)"
  have "\<exists>s1. first = Some s1 \<and> current_time s1 = now \<and>
          render_time_buffer s1 = render_time_buffer s"
  proof (cases "last_draw_time s = 0")
    case True
    then show ?thesis by (simp add: first_def s0_def)
  next
    case False
    with fb have "cb_valid (frame_time_buffer s)" by simp
    from circular_buffer_add_valid [OF this, of "now - last_draw_time s"]
    obtain b where "circular_buffer_add (frame_time_buffer s) (now - last_draw_time s) = Some b"
      by auto
    with False show ?thesis by (simp add: first_def s0_def Let_def)
  qed
  then obtain s1 where s1: "first = Some s1" "current_time s1 = now"
    "render_time_buffer s1 = render_time_buffer s" by auto
  define s11 where "s11 =
    (let s2 = s1\<lparr>last_draw_time := current_time s1\<rparr>;
         s3 = s2\<lparr>next_draw_time := current_time s2 +
                   float_to_long F (fdiv F 1000000 r)\<rparr>;
         s4 = s3\<lparr>frame_number := frame_number s3 + 1\<rparr>;
         s5 = s4\<lparr>effects := effects s4 @ [XFlush]\<rparr>;
         s6 = draw_frame s5;
         s7 = begin_frame s6 frame_normal;
         s8 = s7\<lparr>effects := effects s7 @ [glXSwapBuffers]\<rparr>;
         s9 = end_frame s8;
         s10 = s9\<lparr>current_time := now_end\<rparr>
     in s10\<lparr>render_time := current_time s10 - last_draw_time s10\<rparr>)"
  have n: "next_draw_time s11 = now + float_to_long F (fdiv F 1000000 r)"
    and r: "render_time_buffer s11 = render_time_buffer s"
    by (simp_all add: s11_def Let_def frame_steps_keep_schedule s1)
  from rb r have "cb_valid (render_time_buffer s11)" by simp
  from circular_buffer_add_valid [OF this, of "render_time s11"]
  obtain b where b: "circular_buffer_add (render_time_buffer s11) (render_time s11) = Some b"
    by auto
  have "submit_frame F s d r now now_end =
          map_option (\<lambda>b. s11\<lparr>render_time_buffer := b\<rparr>)
            (circular_buffer_add (render_time_buffer s11) (render_time s11))"
    using ns s1(1)
    by (simp add: submit_frame_def Let_def s11_def flip: s0_def first_def)
       (auto simp add: s0_def)
  with b n show ?thesis by simp
qed

text \<open>The rate that the \<open>Expose\<close> case computes, as a minimum.\<close>

lemma expose_cap_frame_rate_eq:
  "expose_cap_frame_rate F s =
     (if 0 < sint (circular_buffer_average (frame_time_buffer s))
      then min (frame_rate s)
             (fdiv F 1000000 (long_to_float F (circular_buffer_average (frame_time_buffer s))))
      else frame_rate s)"
  by (auto simp add: expose_cap_frame_rate_def Let_def min_def)

text \<open>
  Claim C8. Whatever the floating-point division and conversions compute: an \<open>Expose\<close>
  event submits a frame with the smaller of \<open>frame_rate\<close> and \<open>1e6 / frame_time_avg\<close> as
  its target rate when the average frame interval is positive, and with \<open>frame_rate\<close> when
  it is not (no sample yet, the average is \<open>-1\<close>). Where the frame is submitted, the next
  draw time is scheduled from that rate; with a quotient of 50 and a \<open>frame_rate\<close> of 60 it
  is scheduled from the rate 50.
\<close>

theorem expose_submits_capped_rate:
  "(0 < sint (circular_buffer_average (frame_time_buffer s)) \<longrightarrow>
      process_event F s Expose t0 t1 t2 =
        submit_frame F (s\<lparr>current_time := t0\<rparr>) frame_urgent
          (min (frame_rate s)
             (fdiv F 1000000 (long_to_float F (circular_buffer_average (frame_time_buffer s)))))
          t1 t2)
   \<and> (\<not> 0 < sint (circular_buffer_average (frame_time_buffer s)) \<longrightarrow>
      process_event F s Expose t0 t1 t2 =
        submit_frame F (s\<lparr>current_time := t0\<rparr>) frame_urgent (frame_rate s) t1 t2)
   \<and> (\<not> (0 < timing_sync_serial s \<and> timing_sync_serial s < inflight_sync_serial s)
        \<and> (last_draw_time s \<noteq> 0 \<longrightarrow> cb_valid (frame_time_buffer s))
        \<and> cb_valid (render_time_buffer s) \<longrightarrow>
      (\<exists>s'. process_event F s Expose t0 t1 t2 = Some s' \<and>
         next_draw_time s' =
           t1 + float_to_long F (fdiv F 1000000
             (if 0 < sint (circular_buffer_average (frame_time_buffer s))
              then min (frame_rate s)
                     (fdiv F 1000000
                        (long_to_float F (circular_buffer_average (frame_time_buffer s))))
              else frame_rate s))))
   \<and> (\<not> (0 < timing_sync_serial s \<and> timing_sync_serial s < inflight_sync_serial s)
        \<and> (last_draw_time s \<noteq> 0 \<longrightarrow> cb_valid (frame_time_buffer s))
        \<and> cb_valid (render_time_buffer s)
        \<and> 0 < sint (circular_buffer_average (frame_time_buffer s))
        \<and> fdiv F 1000000 (long_to_float F (circular_buffer_average (frame_time_buffer s))) = 50
        \<and> frame_rate s = 60 \<longrightarrow>
      (\<exists>s'. process_event F s Expose t0 t1 t2 = Some s' \<and>
         next_draw_time s' = t1 + float_to_long F (fdiv F 1000000 50)))"
proof -
  define s0 where "s0 = s\<lparr>current_time := t0\<rparr>"
  have cap: "expose_cap_frame_rate F s0 = expose_cap_frame_rate F s"
    by (simp add: expose_cap_frame_rate_def s0_def Let_def)
  have pe: "process_event F s Expose t0 t1 t2 =
              submit_frame F s0 frame_urgent (expose_cap_frame_rate F s) t1 t2"
    by (simp add: Let_def cap flip: s0_def)
  have sub: "\<exists>s'. submit_frame F s0 frame_urgent r t1 t2 = Some s' \<and>
               next_draw_time s' = t1 + float_to_long F (fdiv F 1000000 r)"
    if "\<not> (0 < timing_sync_serial s \<and> timing_sync_serial s < inflight_sync_serial s)"
      and "last_draw_time s \<noteq> 0 \<longrightarrow> cb_valid (frame_time_buffer s)"
      and "cb_valid (render_time_buffer s)" for r
    using that by (intro submit_frame_next_draw_time) (simp_all add: s0_def)
  show ?thesis
    unfolding pe expose_cap_frame_rate_eq [of F s] s0_def [symmetric]
    using sub by (simp add: min_def)
qed

theorem expose_submits_capped_rate_witness:
  "\<not> (0 < timing_sync_serial measured_state
        \<and> timing_sync_serial measured_state < inflight_sync_serial measured_state)
   \<and> cb_valid (frame_time_buffer measured_state)
   \<and> cb_valid (render_time_buffer measured_state)
   \<and> 0 < sint (circular_buffer_average (frame_time_buffer measured_state))
   \<and> fdiv exact_fpu 1000000
        (long_to_float exact_fpu (circular_buffer_average (frame_time_buffer measured_state))) = 50
   \<and> frame_rate measured_state = 60
   \<and> (\<exists>s'. process_event exact_fpu measured_state Expose 60000 60001 60500 = Some s'
         \<and> next_draw_time s' = 80001)"
proof -
  have avg: "circular_buffer_average (frame_time_buffer measured_state) = 20000"
    by code_simp
  have a: "\<not> (0 < timing_sync_serial measured_state
        \<and> timing_sync_serial measured_state < inflight_sync_serial measured_state)"
    by (simp add: measured_state_def start_state_def)
  have b: "cb_valid (frame_time_buffer measured_state)"
    "cb_valid (render_time_buffer measured_state)"
    by (simp_all add: measured_state_def start_state_def cb_valid_def circular_buffer_zero_def)
  have c: "0 < sint (circular_buffer_average (frame_time_buffer measured_state))"
    by (simp add: avg)
  have d: "fdiv exact_fpu 1000000
        (long_to_float exact_fpu (circular_buffer_average (frame_time_buffer measured_state))) = 50"
    by (simp add: avg exact_fpu_def)
  have e: "frame_rate measured_state = 60" by (simp add: measured_state_def)
  have f: "(60001 :: long) + float_to_long exact_fpu (fdiv exact_fpu 1000000 50) = 80001"
    by (simp add: exact_fpu_def)
  have "\<exists>s'. process_event exact_fpu measured_state Expose 60000 60001 60500 = Some s'
         \<and> next_draw_time s' = 60001 + float_to_long exact_fpu (fdiv exact_fpu 1000000 50)"
    by (rule expose_submits_capped_rate [of measured_state exact_fpu 60000 60001 60500,
          THEN conjunct2, THEN conjunct2, THEN conjunct2, rule_format])
       (simp add: a b c d e)
  with a b c d e show ?thesis by (simp add: f del: process_event.simps)
qed

section \<open>The missing return of check\_wm\_supported\<close>

lemma check_wm_supported_loop_None:
  "check_wm_supported_loop as atom = None \<longleftrightarrow> atom \<notin> set as"
  by (induction as) auto

text \<open>
  Claim C9. \<open>check_wm_supported\<close> returns no value exactly when \<open>have_net_supported\<close>
  holds and the atom is not in \<open>supported_atoms\<close>: control then leaves the loop and reaches
  the end of the function. There are such inputs.
\<close>

theorem check_wm_supported_no_return:
  "(check_wm_supported s atom = None \<longleftrightarrow>
      have_net_supported s \<noteq> 0 \<and> atom \<notin> set (supported_atoms s))
   \<and> (\<exists>s' atom'. check_wm_supported s' atom' = None)"
proof -
  have 1: "check_wm_supported s atom = None \<longleftrightarrow>
      have_net_supported s \<noteq> 0 \<and> atom \<notin> set (supported_atoms s)" for s atom
    by (simp add: check_wm_supported_def check_wm_supported_loop_None)
  have "have_net_supported start_state \<noteq> 0 \<and> 307 \<notin> set (supported_atoms start_state)"
    by (simp add: start_state_def)
  then have "check_wm_supported start_state 307 = None" by (simp add: 1)
  then have "\<exists>s' atom'. check_wm_supported s' atom' = None" by (intro exI)
  with 1 show ?thesis by simp
qed

theorem check_wm_supported_no_return_witness:
  "have_net_supported start_state \<noteq> 0 \<and> 307 \<notin> set (supported_atoms start_state)
   \<and> check_wm_supported start_state 307 = None"
proof -
  have "have_net_supported start_state \<noteq> 0 \<and> 307 \<notin> set (supported_atoms start_state)"
    by (simp add: start_state_def)
  with check_wm_supported_no_return [of start_state 307] show ?thesis by simp
qed

section \<open>Geometry changes\<close>

text \<open>
  Claim C10. Every \<open>ConfigureNotify\<close> event overwrites \<open>configure_sync_serial\<close> and
  \<open>configure_extended_sync\<close> with \<open>request_sync_serial\<close> and \<open>request_extended_sync\<close>
  and then zeroes both of these. So a geometry change that arrives when no sync request is
  pending, when both request variables are 0 as they are at the start and after every
  geometry change until a sync request arrives, resets the configured value and its extended
  flag to 0, whatever they were.
\<close>

theorem configure_notify_promotes:
  "\<exists>s'. process_event F s (ConfigureNotify w h) t0 t1 t2 = Some s'
      \<and> configure_sync_serial s' = request_sync_serial s
      \<and> configure_extended_sync s' = request_extended_sync s
      \<and> request_sync_serial s' = 0
      \<and> request_extended_sync s' = 0
      \<and> (request_sync_serial s = 0 \<and> request_extended_sync s = 0 \<longrightarrow>
           configure_sync_serial s' = 0 \<and> configure_extended_sync s' = 0)"
  by (simp add: Let_def sync_counter_fields)

theorem configure_notify_promotes_witness:
  "request_sync_serial promoted_state = 0 \<and> request_extended_sync promoted_state = 0
   \<and> configure_sync_serial promoted_state = 1000 \<and> configure_extended_sync promoted_state = 1
   \<and> (\<exists>s'. process_event exact_fpu promoted_state (ConfigureNotify 640 480) 20 0 0 = Some s'
         \<and> configure_sync_serial s' = 0 \<and> configure_extended_sync s' = 0
         \<and> request_sync_serial s' = 0 \<and> request_extended_sync s' = 0)"
proof -
  have h: "request_sync_serial promoted_state = 0 \<and> request_extended_sync promoted_state = 0"
    "configure_sync_serial promoted_state = 1000 \<and> configure_extended_sync promoted_state = 1"
    by (simp_all add: promoted_state_def start_state_def)
  from configure_notify_promotes [of exact_fpu promoted_state 640 480 20 0 0] h
  show ?thesis by simp
qed

end
